theory Spec2Isabelle
  imports Complex_Main "HOL-Library.Char_ord" "HOL-Library.List_Lexorder" "HOL-Library.Sublist"
begin

section \<open>JavaScript values used by the routes\<close>

text \<open>
  Strings are byte strings (\<^typ>\<open>string\<close>); the models of \<open>toLowerCase\<close>, of the
  whitespace test and of the default \<open>sort\<close> order are the ASCII ones. A property read from
  a parsed CSV row is a string or \<open>undefined\<close>: \<^typ>\<open>string option\<close>, with \<open>None\<close> for
  \<open>undefined\<close>.
\<close>

type_synonym js_value = "string option"

text \<open>A CSV row as Papa.parse returns it with \<open>header: true\<close>: column name to cell text.\<close>

type_synonym row = "string \<rightharpoonup> string"

definition truthy :: "js_value \<Rightarrow> bool" where
  \<comment> \<open>\<open>undefined\<close> and the empty string are falsy, every other string is truthy\<close>
  "truthy v = (case v of None \<Rightarrow> False | Some s \<Rightarrow> s \<noteq> [])"

definition js_or :: "js_value \<Rightarrow> js_value \<Rightarrow> js_value" where
  \<comment> \<open>\<open>a || b\<close>: the left operand when it is truthy, otherwise the right operand as it is\<close>
  "js_or a b = (if truthy a then a else b)"

definition or_default :: "js_value \<Rightarrow> string \<Rightarrow> string" where
  \<comment> \<open>\<open>a || "literal"\<close>\<close>
  "or_default a d = (case a of None \<Rightarrow> d | Some s \<Rightarrow> if s = [] then d else s)"

definition template :: "js_value \<Rightarrow> string" where
  \<comment> \<open>interpolation \<open>${v}\<close> inside a template literal\<close>
  "template v = (case v of None \<Rightarrow> ''undefined'' | Some s \<Rightarrow> s)"

fun startsWith :: "string \<Rightarrow> string \<Rightarrow> bool" where
  "startsWith s [] = True"
| "startsWith [] (c # cs) = False"
| "startsWith (x # xs) (c # cs) = (x = c \<and> startsWith xs cs)"

fun str_includes :: "string \<Rightarrow> string \<Rightarrow> bool" where
  \<comment> \<open>\<open>s.includes(sub)\<close>: \<open>sub\<close> occurs in \<open>s\<close> as a contiguous substring\<close>
  "str_includes [] sub = (sub = [])"
| "str_includes (x # xs) sub = (startsWith (x # xs) sub \<or> str_includes xs sub)"

definition lower_char :: "char \<Rightarrow> char" where
  "lower_char c =
     (if CHR ''A'' \<le> c \<and> c \<le> CHR ''Z'' then char_of (of_char c + (32::nat)) else c)"

definition toLowerCase :: "string \<Rightarrow> string" where
  "toLowerCase s = map lower_char s"

subsection \<open>Numbers: \<open>parseFloat\<close> and \<open>parseInt\<close>\<close>

text \<open>
  A JavaScript number is kept as the exact value of the parsed literal (\<open>Num\<close>), before its
  rounding to an IEEE double; rounding keeps the sign. \<open>NaN\<close> and the two infinities are
  values of their own.
\<close>

datatype js_number = NaN | Num rat | PosInfinity | NegInfinity

definition isWhiteSpace :: "char \<Rightarrow> bool" where
  "isWhiteSpace c = (c \<in> set [CHR 0x09, CHR 0x0A, CHR 0x0B, CHR 0x0C, CHR 0x0D, CHR 0x20])"

definition isDigit :: "char \<Rightarrow> bool" where
  "isDigit c = (CHR ''0'' \<le> c \<and> c \<le> CHR ''9'')"

definition digitVal :: "char \<Rightarrow> nat" where
  "digitVal c = of_char c - 48"

definition digitsVal :: "string \<Rightarrow> nat" where
  "digitsVal ds = foldl (\<lambda>n c. 10 * n + digitVal c) 0 ds"

definition scale10 :: "nat \<Rightarrow> int \<Rightarrow> rat" where
  "scale10 m e = (if 0 \<le> e then of_nat m * 10 ^ nat e else of_nat m / 10 ^ nat (- e))"

definition signedDigits :: "string \<Rightarrow> int" where
  \<comment> \<open>the digits of an exponent, 0 when there is none: the exponent part is then not taken\<close>
  "signedDigits s =
     (case s of
        c # ds \<Rightarrow>
          if c = CHR ''-'' then - int (digitsVal (takeWhile isDigit ds))
          else if c = CHR ''+'' then int (digitsVal (takeWhile isDigit ds))
          else int (digitsVal (takeWhile isDigit (c # ds)))
      | [] \<Rightarrow> 0)"

definition exponentPart :: "string \<Rightarrow> int" where
  "exponentPart s =
     (case s of
        c # r \<Rightarrow> if c = CHR ''e'' \<or> c = CHR ''E'' then signedDigits r else 0
      | [] \<Rightarrow> 0)"

definition strUnsignedDecimalLiteral :: "string \<Rightarrow> js_number" where
  \<comment> \<open>value of the longest prefix that is \<open>Infinity\<close>, \<open>d.d\<close>, \<open>.d\<close> or \<open>d\<close>, each with an
      optional exponent; \<open>NaN\<close> when no prefix is one\<close>
  "strUnsignedDecimalLiteral s =
     (if startsWith s ''Infinity'' then PosInfinity
      else
        let ip = takeWhile isDigit s; r1 = dropWhile isDigit s in
        case r1 of
          c # r2 \<Rightarrow>
            if c = CHR ''.'' then
              (let fp = takeWhile isDigit r2; r3 = dropWhile isDigit r2 in
               if ip = [] \<and> fp = [] then NaN
               else Num (scale10 (digitsVal (ip @ fp)) (exponentPart r3 - int (length fp))))
            else if ip = [] then NaN
            else Num (scale10 (digitsVal ip) (exponentPart r1))
        | [] \<Rightarrow> if ip = [] then NaN else Num (scale10 (digitsVal ip) 0))"

fun negate :: "js_number \<Rightarrow> js_number" where
  "negate NaN = NaN"
| "negate (Num q) = Num (- q)"
| "negate PosInfinity = NegInfinity"
| "negate NegInfinity = PosInfinity"

definition parseFloat :: "string \<Rightarrow> js_number" where
  "parseFloat s =
     (case dropWhile isWhiteSpace s of
        c # r \<Rightarrow>
          if c = CHR ''-'' then negate (strUnsignedDecimalLiteral r)
          else if c = CHR ''+'' then strUnsignedDecimalLiteral r
          else strUnsignedDecimalLiteral (c # r)
      | [] \<Rightarrow> NaN)"






section \<open>Upload route: normalisation, validation and in-batch deduplication\<close>

datatype cloud = Aws | Gcp

fun cloud_str :: "cloud \<Rightarrow> string" where
  "cloud_str Aws = ''aws''"
| "cloud_str Gcp = ''gcp''"

fun cloud_upper :: "cloud \<Rightarrow> string" where
  \<comment> \<open>\<open>cloud.toUpperCase()\<close>\<close>
  "cloud_upper Aws = ''AWS''"
| "cloud_upper Gcp = ''GCP''"

definition inferCloud :: "string \<Rightarrow> cloud" where
  \<comment> \<open>\<open>file.name\<close> to the cloud of the whole upload; \<open>aws\<close> is the initial value\<close>
  "inferCloud name =
     (let fileName = toLowerCase name in
      if str_includes fileName ''gcp'' then Gcp
      else if str_includes fileName ''aws'' then Aws
      else Aws)"

text \<open>The six normalised raw fields of a row, each the first truthy of three columns.\<close>

definition date_of :: "row \<Rightarrow> js_value" where
  "date_of row = js_or (js_or (row ''date'') (row ''usage_start_time'')) (row ''usage_date'')"

definition account_or_project_of :: "row \<Rightarrow> js_value" where
  "account_or_project_of row =
     js_or (js_or (row ''account_id'') (row ''project_id'')) (row ''billing_account_id'')"

definition service_of :: "row \<Rightarrow> js_value" where
  "service_of row =
     js_or (js_or (row ''service'') (row ''service_description'')) (row ''sku_description'')"

definition team_of :: "row \<Rightarrow> js_value" where
  "team_of row = js_or (js_or (row ''team'') (row ''owner'')) (row ''department'')"

definition env_of :: "row \<Rightarrow> js_value" where
  "env_of row = js_or (js_or (row ''env'') (row ''environment'')) (row ''stage'')"

definition cost_usd_of :: "row \<Rightarrow> js_value" where
  "cost_usd_of row = js_or (js_or (row ''cost_usd'') (row ''cost'')) (row ''cost_amount'')"

definition passes :: "row \<Rightarrow> bool" where
  \<comment> \<open>the negation of the guard \<open>!date || !service || !cost_usd\<close>\<close>
  "passes row = (truthy (date_of row) \<and> truthy (service_of row) \<and> truthy (cost_usd_of row))"

definition key_of :: "cloud \<Rightarrow> row \<Rightarrow> string" where
  \<comment> \<open>the template literal that builds the deduplication key\<close>
  "key_of cl row =
     template (date_of row) @ ''_'' @ cloud_str cl @ ''_'' @
     template (account_or_project_of row) @ ''_'' @ template (service_of row) @ ''_'' @
     template (team_of row) @ ''_'' @ template (env_of row) @ ''_'' @
     template (cost_usd_of row)"

text \<open>\<open>new Date(s)\<close> is kept as the string it is built from; parsing is the runtime's.\<close>

datatype js_date = NewDate string

record valid_row =
  date :: js_date
  cloud :: cloud
  account_or_project :: string
  service :: string
  team :: string
  env :: string
  cost_usd :: js_number
  dedupe_key :: string

definition make_row :: "cloud \<Rightarrow> row \<Rightarrow> string \<Rightarrow> valid_row" where
  \<comment> \<open>the object pushed to \<open>validRows\<close>; called only for rows that pass the guard, whose
      date, service and cost are strings\<close>
  "make_row cl row key =
     \<lparr> date = NewDate (template (date_of row)),
       cloud = cl,
       account_or_project = or_default (account_or_project_of row) ''unknown'',
       service = template (service_of row),
       team = or_default (team_of row) ''unassigned'',
       env = or_default (env_of row) ''prod'',
       cost_usd = parseFloat (template (cost_usd_of row)),
       dedupe_key = key \<rparr>"

fun process_rows :: "cloud \<Rightarrow> row list \<Rightarrow> string set \<Rightarrow> valid_row list \<Rightarrow> valid_row list" where
  \<comment> \<open>the \<open>for (const row of rows)\<close> loop over the state \<open>seen\<close>, \<open>validRows\<close>\<close>
  "process_rows cl [] seen validRows = validRows"
| "process_rows cl (row # rows) seen validRows =
     (if \<not> truthy (date_of row) \<or> \<not> truthy (service_of row) \<or> \<not> truthy (cost_usd_of row)
      then process_rows cl rows seen validRows
      else
        let key = key_of cl row in
        if key \<in> seen then process_rows cl rows seen validRows
        else process_rows cl rows (insert key seen) (validRows @ [make_row cl row key]))"

definition validRows_of :: "string \<Rightarrow> row list \<Rightarrow> valid_row list" where
  \<comment> \<open>what the handler hands to the bulk insert for a file name and its parsed rows\<close>
  "validRows_of name rows = process_rows (inferCloud name) rows {} []"

section \<open>Retry wrapper of the database client\<close>

text \<open>
  A value thrown by a database call: an \<open>Error\<close> object with its \<open>message\<close> and its
  \<open>String(error)\<close>, or any other value with its \<open>String(error)\<close>.
\<close>

datatype thrown = ErrorObject string string | NonError string

fun errorMessage :: "thrown \<Rightarrow> string" where
  \<comment> \<open>\<open>error instanceof Error ? error.message : String(error)\<close>\<close>
  "errorMessage (ErrorObject message str) = message"
| "errorMessage (NonError str) = str"

fun errorString :: "thrown \<Rightarrow> string" where
  "errorString (ErrorObject message str) = str"
| "errorString (NonError str) = str"

definition isConnectionError :: "thrown \<Rightarrow> bool" where
  "isConnectionError error =
     (str_includes (errorMessage error) ''connection'' \<or>
      str_includes (errorMessage error) ''ECONNREFUSED'' \<or>
      str_includes (errorMessage error) ''10054'' \<or>
      str_includes (errorMessage error) ''forcibly closed'' \<or>
      str_includes (errorMessage error) ''Closed'' \<or>
      str_includes (errorString error) ''P1001'' \<or>
      str_includes (errorString error) ''P1017'')"

text \<open>
  The effects of one call of \<open>withRetry\<close>, in the order they happen: the health query of
  \<open>checkConnection\<close> with its outcome, a call of the wrapped operation at an attempt, the
  warning that announces a retry (attempt, \<open>maxRetries\<close>, delay), and the three steps of the
  reconnection.
\<close>

datatype event =
  HealthCheck bool | Invoke nat | Warn nat nat nat | Disconnect | Sleep nat | Connect

record retry_state =
  isConnected :: bool
  trace :: "event list"

text \<open>
  What the database does is given from outside, by attempt number: the outcome of the
  wrapped operation, whether \<open>SELECT 1\<close> succeeds, and how the reconnection goes.
\<close>

datatype reconnect_outcome = DisconnectThrows | ConnectThrows | Reconnected

record 'a retry_env =
  operation :: "nat \<Rightarrow> thrown + 'a"
  queryRaw_ok :: "nat \<Rightarrow> bool"
  reconnect :: "nat \<Rightarrow> reconnect_outcome"

definition ensureConnection :: "'a retry_env \<Rightarrow> nat \<Rightarrow> retry_state \<Rightarrow> retry_state" where
  \<comment> \<open>\<open>checkConnection\<close> catches its own error, so this never throws\<close>
  "ensureConnection world attempt st =
     (if \<not> isConnected st
      then st\<lparr> isConnected := queryRaw_ok world attempt,
               trace := trace st @ [HealthCheck (queryRaw_ok world attempt)] \<rparr>
      else st)"

definition reconnection :: "'a retry_env \<Rightarrow> nat \<Rightarrow> nat \<Rightarrow> retry_state \<Rightarrow> retry_state" where
  \<comment> \<open>the inner \<open>try\<close>: disconnect, wait \<open>delay\<close>, connect; a throw leaves the rest undone\<close>
  "reconnection world attempt delay st =
     (case reconnect world attempt of
        DisconnectThrows \<Rightarrow> st\<lparr> trace := trace st @ [Disconnect] \<rparr>
      | ConnectThrows \<Rightarrow> st\<lparr> trace := trace st @ [Disconnect, Sleep delay, Connect] \<rparr>
      | Reconnected \<Rightarrow>
          st\<lparr> isConnected := True, trace := trace st @ [Disconnect, Sleep delay, Connect] \<rparr>)"

function withRetry_loop ::
  "'a retry_env \<Rightarrow> nat \<Rightarrow> nat \<Rightarrow> nat \<Rightarrow> thrown \<Rightarrow> retry_state \<Rightarrow> (thrown + 'a) \<times> retry_state"
where
  "withRetry_loop world maxRetries initialDelay attempt lastError st =
     (if attempt \<le> maxRetries then
        (let st1 = ensureConnection world attempt st;
             st2 = st1\<lparr> trace := trace st1 @ [Invoke attempt] \<rparr>
         in case operation world attempt of
              Inr v \<Rightarrow> (Inr v, st2)
            | Inl error \<Rightarrow>
                if isConnectionError error then
                  (let st3 = st2\<lparr> isConnected := False \<rparr> in
                   if attempt < maxRetries then
                     (let delay = initialDelay * 2 ^ (attempt - 1);
                          st4 = st3\<lparr> trace := trace st3 @ [Warn attempt maxRetries delay] \<rparr>
                      in withRetry_loop world maxRetries initialDelay (attempt + 1) error
                           (reconnection world attempt delay st4))
                   else (Inl error, st3))
                else (Inl error, st2))
      else (Inl lastError, st))"
  by pat_completeness auto
termination
  by (relation "measure (\<lambda>(world, maxRetries, initialDelay, attempt, lastError, st).
        Suc maxRetries - attempt)") auto

declare withRetry_loop.simps [simp del]

definition withRetry ::
  "'a retry_env \<Rightarrow> nat \<Rightarrow> nat \<Rightarrow> retry_state \<Rightarrow> (thrown + 'a) \<times> retry_state" where
  \<comment> \<open>the loop starts at attempt 1 with \<open>lastError\<close> undefined\<close>
  "withRetry world maxRetries initialDelay st =
     withRetry_loop world maxRetries initialDelay 1 (NonError ''undefined'') st"




section \<open>Upload route: the handler\<close>

text \<open>
  A response is a status with an error message, or the success body with its message and
  the two counts.
\<close>

datatype response = ErrorResponse nat string | UploadResponse string nat int

text \<open>
  The database client is a parameter of the handler: \<open>createMany data db k\<close> is the outcome
  of the \<open>k\<close>-th call of \<open>prisma.spendRecord.createMany\<close> with \<open>skipDuplicates\<close> on the
  database \<open>db\<close>, a thrown value or the count with the new database. A call that throws
  leaves the database as it was.
\<close>

record 'db prisma =
  createMany :: "valid_row list \<Rightarrow> 'db \<Rightarrow> nat \<Rightarrow> thrown + (nat \<times> 'db)"
  select1_ok :: "nat \<Rightarrow> bool"
  reconnects :: "nat \<Rightarrow> reconnect_outcome"
  connected :: bool

definition POST ::
  "'db prisma \<Rightarrow> response option \<Rightarrow> (string \<times> row list) option \<Rightarrow> 'db \<Rightarrow> response \<times> 'db" where
  \<comment> \<open>\<open>authError\<close> is the result of \<open>requireRoles\<close>; \<open>file\<close> is the uploaded file, as its
      name and the rows Papa.parse returns for its text\<close>
  "POST client authError file db =
     (case authError of
        Some e \<Rightarrow> (e, db)
      | None \<Rightarrow>
        (case file of
           None \<Rightarrow> (ErrorResponse 400 ''No file uploaded'', db)
         | Some (name, rows) \<Rightarrow>
             if rows = [] then (ErrorResponse 400 ''Empty CSV file'', db)
             else
               let cl = inferCloud name;
                   validRows = process_rows cl rows {} []
               in
                 if validRows = []
                 then (ErrorResponse 400 ''No valid rows found after parsing'', db)
                 else
                   (case fst (withRetry
                          \<lparr> operation = createMany client validRows db,
                            queryRaw_ok = select1_ok client,
                            reconnect = reconnects client \<rparr>
                          3 500 \<lparr> isConnected = connected client, trace = [] \<rparr>) of
                      Inl error \<Rightarrow> (ErrorResponse 500 ''Upload failed'', db)
                    | Inr (count, db') \<Rightarrow>
                        (UploadResponse
                           (''Uploaded successfully ('' @ cloud_upper cl @ '' detected)'')
                           count (int (length rows) - int count),
                         db'))))"

subsection \<open>The table behind the client\<close>

text \<open>
  Modelled from the spec: Prisma's \<open>createMany\<close> with \<open>skipDuplicates\<close> is not code of the
  repository. The schema puts a unique index on \<open>dedupe_key\<close>, and the bulk insert skips the
  rows that violate it (section 4.3): rows go in one by one, a row whose key is already in
  the table is left out, and the count is the number of rows that went in.
\<close>

fun insert_skipDuplicates :: "valid_row list \<Rightarrow> valid_row list \<Rightarrow> nat \<Rightarrow> nat \<times> valid_row list" where
  \<comment> \<open>Modelled from the spec: the bulk insert that skips the rows whose \<open>dedupe_key\<close> is
      already stored (Prisma's \<open>createMany\<close> with \<open>skipDuplicates\<close>)\<close>
  "insert_skipDuplicates [] table count = (count, table)"
| "insert_skipDuplicates (r # rs) table count =
     (if dedupe_key r \<in> dedupe_key ` set table
      then insert_skipDuplicates rs table count
      else insert_skipDuplicates rs (table @ [r]) (Suc count))"

definition table_client :: "(nat \<Rightarrow> thrown option) \<Rightarrow> (valid_row list) prisma" where
  \<comment> \<open>Modelled from the spec: a client over an in-memory table; \<open>fault k\<close> is what the
      \<open>k\<close>-th call throws, if anything\<close>
  "table_client fault =
     \<lparr> createMany = (\<lambda>data table k.
         case fault k of Some e \<Rightarrow> Inl e | None \<Rightarrow> Inr (insert_skipDuplicates data table 0)),
       select1_ok = (\<lambda>k. fault k = None),
       reconnects = (\<lambda>k. Reconnected),
       connected = False \<rparr>"

section \<open>Spend route\<close>












section \<open>Example inputs\<close>

text \<open>Rows as the route's tests upload them, and a database that never fails.\<close>

definition ec2_row :: row where
  "ec2_row = [''date'' \<mapsto> ''2024-01-01'', ''service'' \<mapsto> ''EC2'', ''cost_usd'' \<mapsto> ''100.50'']"

definition s3_row :: row where
  "s3_row = [''date'' \<mapsto> ''2024-01-01'', ''service'' \<mapsto> ''S3'', ''cost_usd'' \<mapsto> ''50.25'']"

definition invalid_row :: row where
  "invalid_row = [''date'' \<mapsto> [], ''service'' \<mapsto> ''InvalidService'', ''cost_usd'' \<mapsto> []]"

definition negative_cost_row :: row where
  "negative_cost_row = [''date'' \<mapsto> ''2024-01-01'', ''service'' \<mapsto> ''EC2'', ''cost_usd'' \<mapsto> ''-5'']"

definition no_fault :: "nat \<Rightarrow> thrown option" where
  "no_fault k = None"

definition other_columns :: row where
  "other_columns = [''team'' \<mapsto> ''core'']"

definition aws_style_row :: row where
  "aws_style_row = other_columns(''usage_start_time'' \<mapsto> ''2024-01-01'',
     ''service_description'' \<mapsto> ''Compute'', ''cost'' \<mapsto> ''12.5'')"

definition gcp_style_row :: row where
  "gcp_style_row = other_columns(''usage_date'' \<mapsto> ''2024-01-01'',
     ''sku_description'' \<mapsto> ''Compute'', ''cost_amount'' \<mapsto> ''12.5'')"

definition undefined_account_row :: row where
  "undefined_account_row = ec2_row(''account_id'' \<mapsto> ''undefined'')"









section \<open>Properties of the building blocks\<close>

lemmas field_defs = date_of_def service_of_def cost_usd_of_def account_or_project_of_def
  team_of_def env_of_def js_or_def truthy_def template_def or_default_def

lemmas row_defs = ec2_row_def s3_row_def invalid_row_def negative_cost_row_def



lemma make_row_simps [simp]:
  "dedupe_key (make_row cl r k) = k" "cloud (make_row cl r k) = cl"
  "cost_usd (make_row cl r k) = parseFloat (template (cost_usd_of r))"
  by (simp_all add: make_row_def)

subsection \<open>The loop over the rows\<close>

lemma process_rows_append_acc:
  "process_rows cl rows seen acc = acc @ process_rows cl rows seen []"
proof (induction rows arbitrary: seen acc)
  case Nil
  show ?case by simp
next
  case (Cons r rows)
  show ?case
    using Cons.IH[of seen acc] Cons.IH[of "insert (key_of cl r) seen" "acc @ [make_row cl r (key_of cl r)]"]
      Cons.IH[of "insert (key_of cl r) seen" "[make_row cl r (key_of cl r)]"]
    by (simp add: Let_def)
qed

lemma process_rows_skip:
  "\<not> passes r \<Longrightarrow> process_rows cl (xs @ r # ys) seen acc = process_rows cl (xs @ ys) seen acc"
  by (induction xs arbitrary: seen acc) (auto simp: passes_def Let_def)

lemma process_rows_filter:
  "process_rows cl (filter passes rows) seen acc = process_rows cl rows seen acc"
  by (induction rows arbitrary: seen acc) (auto simp: passes_def Let_def)

lemma process_rows_origin:
  "v \<in> set (process_rows cl rows seen acc) \<Longrightarrow>
     v \<in> set acc \<or> (\<exists>r\<in>set rows. passes r \<and> key_of cl r \<notin> seen \<and> v = make_row cl r (key_of cl r))"
proof (induction rows arbitrary: seen acc)
  case Nil
  then show ?case by simp
next
  case (Cons r rows)
  then show ?case
    by (fastforce simp: passes_def Let_def split: if_splits)
qed

lemma process_rows_seen_drop:
  "key_of cl b \<in> seen \<Longrightarrow> process_rows cl (xs @ b # ys) seen acc = process_rows cl (xs @ ys) seen acc"
  by (induction xs arbitrary: seen acc) (auto simp: Let_def)

lemma process_rows_dup:
  "passes a \<Longrightarrow> key_of cl a = key_of cl b \<Longrightarrow>
   process_rows cl (xs @ a # ys @ b # zs) seen acc = process_rows cl (xs @ a # ys @ zs) seen acc"
proof (induction xs arbitrary: seen acc)
  case Nil
  have "\<And>s c. key_of cl b \<in> s \<Longrightarrow> process_rows cl (ys @ b # zs) s c = process_rows cl (ys @ zs) s c"
    by (rule process_rows_seen_drop)
  with Nil show ?case by (simp add: Let_def passes_def)
next
  case (Cons x xs)
  then show ?case by (simp add: Let_def)
qed

lemma process_rows_all:
  "\<forall>r\<in>set rows. passes r \<Longrightarrow> distinct (map (key_of cl) rows) \<Longrightarrow>
   \<forall>r\<in>set rows. key_of cl r \<notin> seen \<Longrightarrow>
   process_rows cl rows seen acc = acc @ map (\<lambda>r. make_row cl r (key_of cl r)) rows"
proof (induction rows arbitrary: seen acc)
  case Nil
  then show ?case by simp
next
  case (Cons r rows)
  have "process_rows cl rows (insert (key_of cl r) seen) (acc @ [make_row cl r (key_of cl r)]) =
        (acc @ [make_row cl r (key_of cl r)]) @ map (\<lambda>r. make_row cl r (key_of cl r)) rows"
    using Cons.prems by (intro Cons.IH) (auto simp: image_iff)
  with Cons.prems show ?case by (simp add: Let_def passes_def)
qed

lemma process_rows_none:
  "\<forall>r\<in>set rows. \<not> passes r \<Longrightarrow> process_rows cl rows seen acc = acc"
  by (induction rows) (auto simp: passes_def)

lemma process_rows_some:
  "\<exists>r\<in>set rows. passes r \<and> key_of cl r \<notin> seen \<Longrightarrow> process_rows cl rows seen acc \<noteq> []"
proof (induction rows arbitrary: seen acc)
  case Nil
  then show ?case by simp
next
  case (Cons x xs)
  show ?case
  proof (cases "passes x \<and> key_of cl x \<notin> seen")
    case True
    have "process_rows cl xs (insert (key_of cl x) seen) (acc @ [make_row cl x (key_of cl x)]) \<noteq> []"
      using process_rows_append_acc[of cl xs "insert (key_of cl x) seen" "acc @ [make_row cl x (key_of cl x)]"]
      by simp
    with True show ?thesis by (simp add: passes_def Let_def)
  next
    case False
    with Cons.prems have "\<exists>r\<in>set xs. passes r \<and> key_of cl r \<notin> seen" by auto
    then have "process_rows cl xs seen acc \<noteq> []" by (rule Cons.IH)
    with False show ?thesis by (auto simp: passes_def Let_def)
  qed
qed

lemma validRows_skip:
  "\<not> passes r \<Longrightarrow> validRows_of name (xs @ r # ys) = validRows_of name (xs @ ys)"
  by (simp add: validRows_of_def process_rows_skip)

lemma validRows_origin:
  "v \<in> set (validRows_of name rows) \<Longrightarrow>
   \<exists>r\<in>set rows. passes r \<and> v = make_row (inferCloud name) r (key_of (inferCloud name) r)"
  using process_rows_origin[of v "inferCloud name" rows "{}" "[]"]
  by (auto simp: validRows_of_def)

lemma not_passes_iff:
  "(\<not> passes r) =
   (date_of r = None \<or> date_of r = Some [] \<or> service_of r = None \<or> service_of r = Some [] \<or>
    cost_usd_of r = None \<or> cost_usd_of r = Some [])"
  by (auto simp: passes_def truthy_def split: option.splits)

lemma validRows_all:
  "\<forall>r\<in>set rows. passes r \<Longrightarrow> distinct (map (key_of (inferCloud name)) rows) \<Longrightarrow>
   validRows_of name rows = map (\<lambda>r. make_row (inferCloud name) r (key_of (inferCloud name) r)) rows"
  using process_rows_all[of rows "inferCloud name" "{}" "[]"] by (simp add: validRows_of_def)

lemma validRows_empty_iff:
  "validRows_of name rows = [] \<longleftrightarrow> (\<forall>r\<in>set rows. \<not> passes r)"
  using process_rows_none[of rows "inferCloud name" "{}" "[]"]
    process_rows_some[of rows "inferCloud name" "{}" "[]"]
  by (auto simp: validRows_of_def)

subsection \<open>The table and the handler\<close>




lemma withRetry_first_ok:
  "operation world 1 = Inr v \<Longrightarrow> 1 \<le> m \<Longrightarrow> fst (withRetry world m d st) = Inr v"
  unfolding withRetry_def by (subst withRetry_loop.simps) (simp add: Let_def)

lemma POST_fresh:
  "POST client None (Some (name, rows)) db =
     (if rows = [] then (ErrorResponse 400 ''Empty CSV file'', db)
      else if validRows_of name rows = []
      then (ErrorResponse 400 ''No valid rows found after parsing'', db)
      else (case fst (withRetry
                  \<lparr> operation = createMany client (validRows_of name rows) db,
                    queryRaw_ok = select1_ok client,
                    reconnect = reconnects client \<rparr>
                  3 500 \<lparr> isConnected = connected client, trace = [] \<rparr>) of
              Inl error \<Rightarrow> (ErrorResponse 500 ''Upload failed'', db)
            | Inr (count, db') \<Rightarrow>
                (UploadResponse
                   (''Uploaded successfully ('' @ cloud_upper (inferCloud name) @ '' detected)'')
                   count (int (length rows) - int count),
                 db')))"
  by (simp add: POST_def validRows_of_def Let_def)

lemma POST_table:
  assumes "fault 1 = None" "rows \<noteq> []" "validRows_of name rows \<noteq> []"
  shows "POST (table_client fault) None (Some (name, rows)) table =
     (UploadResponse (''Uploaded successfully ('' @ cloud_upper (inferCloud name) @ '' detected)'')
        (fst (insert_skipDuplicates (validRows_of name rows) table 0))
        (int (length rows) - int (fst (insert_skipDuplicates (validRows_of name rows) table 0))),
      snd (insert_skipDuplicates (validRows_of name rows) table 0))"
proof -
  let ?w = "\<lparr> operation = createMany (table_client fault) (validRows_of name rows) table,
              queryRaw_ok = select1_ok (table_client fault),
              reconnect = reconnects (table_client fault) \<rparr>"
  have "operation ?w 1 = Inr (insert_skipDuplicates (validRows_of name rows) table 0)"
    using assms(1) by (simp add: table_client_def)
  then have "fst (withRetry ?w 3 500 \<lparr> isConnected = connected (table_client fault), trace = [] \<rparr>)
        = Inr (insert_skipDuplicates (validRows_of name rows) table 0)"
    by (rule withRetry_first_ok) simp
  with assms(2,3) show ?thesis
    by (simp add: POST_fresh split: prod.splits)
qed

subsection \<open>The example inputs evaluated\<close>

lemma infer_test_csv: "inferCloud ''test.csv'' = Aws"
  by code_simp

lemma passes_examples:
  "passes ec2_row" "passes s3_row" "\<not> passes invalid_row" "passes negative_cost_row"
  by (simp_all add: passes_def row_defs field_defs)

lemma keys_examples:
  "key_of Aws ec2_row = ''2024-01-01_aws_undefined_EC2_undefined_undefined_100.50''"
  "key_of Aws s3_row = ''2024-01-01_aws_undefined_S3_undefined_undefined_50.25''"
  "key_of Aws negative_cost_row = ''2024-01-01_aws_undefined_EC2_undefined_undefined_-5''"
  by (simp_all add: key_of_def row_defs field_defs)

lemma validRows_example:
  "validRows_of ''test.csv'' [ec2_row, s3_row] =
     [make_row Aws ec2_row (key_of Aws ec2_row), make_row Aws s3_row (key_of Aws s3_row)]"
  using validRows_all[of "[ec2_row, s3_row]" "''test.csv''"]
  by (simp add: infer_test_csv keys_examples passes_examples)

lemma insert_example:
  "insert_skipDuplicates
     [make_row Aws ec2_row (key_of Aws ec2_row), make_row Aws s3_row (key_of Aws s3_row)] [] 0 =
   (2, [make_row Aws ec2_row (key_of Aws ec2_row), make_row Aws s3_row (key_of Aws s3_row)])"
  by (simp add: keys_examples)

lemma POST_example:
  "POST (table_client no_fault) None (Some (''test.csv'', [ec2_row, s3_row])) [] =
     (UploadResponse ''Uploaded successfully (AWS detected)'' 2 0,
      [make_row Aws ec2_row (key_of Aws ec2_row), make_row Aws s3_row (key_of Aws s3_row)])"
  using POST_table[of no_fault "[ec2_row, s3_row]" "''test.csv''" "[]"]
  by (simp add: no_fault_def infer_test_csv validRows_example insert_example keys_examples)

subsection \<open>Further facts for the claims\<close>

lemma process_rows_cong_row:
  assumes "passes a = passes b"
    and "passes a \<Longrightarrow> key_of cl a = key_of cl b"
    and "passes a \<Longrightarrow> make_row cl a (key_of cl a) = make_row cl b (key_of cl b)"
  shows "process_rows cl (xs @ a # ys) seen acc = process_rows cl (xs @ b # ys) seen acc"
  using assms by (induction xs arbitrary: seen acc) (auto simp: passes_def Let_def)

lemma template_undefined:
  "y = x \<or> (x = None \<and> y = Some ''undefined'') \<or> (x = Some ''undefined'' \<and> y = None) \<Longrightarrow>
   template y = template x"
  by (elim disjE conjE) (simp_all add: template_def)








lemma undefined_account_fields:
  "date_of undefined_account_row = date_of ec2_row"
  "service_of undefined_account_row = service_of ec2_row"
  "cost_usd_of undefined_account_row = cost_usd_of ec2_row"
  "account_or_project_of ec2_row = None"
  "account_or_project_of undefined_account_row = Some ''undefined''"
  "team_of undefined_account_row = team_of ec2_row"
  "env_of undefined_account_row = env_of ec2_row"
  by (simp_all add: undefined_account_row_def ec2_row_def field_defs)

lemma other_columns_absent:
  "other_columns ''usage_start_time'' = None" "other_columns ''service_description'' = None"
  "other_columns ''cost'' = None" "other_columns ''usage_date'' = None"
  "other_columns ''sku_description'' = None" "other_columns ''cost_amount'' = None"
  by (simp_all add: other_columns_def)

subsection \<open>The retry loop\<close>












subsection \<open>The spend route\<close>











section \<open>Claims\<close>



text \<open>
  C2. A row whose normalised date, service or cost is \<open>undefined\<close> or empty changes nothing
  in what the bulk insert receives, whatever its other columns hold: the insert gets
  exactly the rows it would get without that row, each built from a row that passes the
  guard; in a successful answer the row only raises \<open>skipped\<close> by one.
\<close>

theorem validation_gate:
  assumes "date_of r = None \<or> date_of r = Some [] \<or> service_of r = None \<or>
           service_of r = Some [] \<or> cost_usd_of r = None \<or> cost_usd_of r = Some []"
  shows "validRows_of name (xs @ r # ys) = validRows_of name (xs @ ys) \<and>
         (\<forall>v\<in>set (validRows_of name (xs @ r # ys)).
            \<exists>r'\<in>set (xs @ ys). passes r' \<and>
               v = make_row (inferCloud name) r' (key_of (inferCloud name) r')) \<and>
         (POST client None (Some (name, xs @ ys)) db = (UploadResponse m i s, db') \<longrightarrow>
          POST client None (Some (name, xs @ r # ys)) db = (UploadResponse m i (s + 1), db'))"
proof -
  from assms have np: "\<not> passes r" by (simp add: not_passes_iff)
  have eq: "validRows_of name (xs @ r # ys) = validRows_of name (xs @ ys)"
    by (rule validRows_skip[OF np])
  have origin: "\<forall>v\<in>set (validRows_of name (xs @ r # ys)).
            \<exists>r'\<in>set (xs @ ys). passes r' \<and>
               v = make_row (inferCloud name) r' (key_of (inferCloud name) r')"
    unfolding eq using validRows_origin by blast
  have post: "POST client None (Some (name, xs @ r # ys)) db = (UploadResponse m i (s + 1), db')"
    if ok: "POST client None (Some (name, xs @ ys)) db = (UploadResponse m i s, db')"
  proof -
    from ok have ne: "xs @ ys \<noteq> []" "validRows_of name (xs @ ys) \<noteq> []"
      by (auto simp: POST_fresh split: if_splits)
    from ok ne show ?thesis
      by (auto simp: POST_fresh eq split: sum.splits prod.splits)
  qed
  from eq origin post show ?thesis by blast
qed

theorem validation_gate_witness:
  "date_of invalid_row = None \<and>
   validRows_of ''test.csv'' ([ec2_row] @ invalid_row # [s3_row]) =
     validRows_of ''test.csv'' ([ec2_row] @ [s3_row]) \<and>
   validRows_of ''test.csv'' ([ec2_row] @ invalid_row # [s3_row]) \<noteq> [] \<and>
   POST (table_client no_fault) None (Some (''test.csv'', [ec2_row] @ [s3_row])) [] =
     (UploadResponse ''Uploaded successfully (AWS detected)'' 2 0,
      [make_row Aws ec2_row (key_of Aws ec2_row), make_row Aws s3_row (key_of Aws s3_row)]) \<and>
   POST (table_client no_fault) None (Some (''test.csv'', [ec2_row] @ invalid_row # [s3_row])) [] =
     (UploadResponse ''Uploaded successfully (AWS detected)'' 2 1,
      [make_row Aws ec2_row (key_of Aws ec2_row), make_row Aws s3_row (key_of Aws s3_row)])"
proof -
  have d: "date_of invalid_row = None"
    by (simp add: invalid_row_def field_defs)
  from validation_gate[of invalid_row "''test.csv''" "[ec2_row]" "[s3_row]" "table_client no_fault" "[]"
      "''Uploaded successfully (AWS detected)''" 2 0
      "[make_row Aws ec2_row (key_of Aws ec2_row), make_row Aws s3_row (key_of Aws s3_row)]"]
    d POST_example validRows_example
  have a: "validRows_of ''test.csv'' ([ec2_row] @ invalid_row # [s3_row]) =
     validRows_of ''test.csv'' ([ec2_row] @ [s3_row])" by simp
  from validation_gate[of invalid_row "''test.csv''" "[ec2_row]" "[s3_row]" "table_client no_fault" "[]"
      "''Uploaded successfully (AWS detected)''" 2 0
      "[make_row Aws ec2_row (key_of Aws ec2_row), make_row Aws s3_row (key_of Aws s3_row)]"]
    d POST_example
  have b: "POST (table_client no_fault) None (Some (''test.csv'', [ec2_row] @ invalid_row # [s3_row])) [] =
     (UploadResponse ''Uploaded successfully (AWS detected)'' 2 1,
      [make_row Aws ec2_row (key_of Aws ec2_row), make_row Aws s3_row (key_of Aws s3_row)])" by simp
  from a b d POST_example validRows_example
  show ?thesis by simp
qed



text \<open>
  C6. With the caller authorised and a file present, the handler answers with the
  empty-CSV error exactly when there are no rows, and with the no-valid-rows error exactly
  when there are rows and none passes the guard (the first passing row always survives
  the deduplication). In both cases the database is returned as it was, and the answer
  is the same for every database client: the bulk insert is not called.
\<close>

theorem upload_error_outcomes:
  "(fst (POST client None (Some (name, rows)) db) = ErrorResponse 400 ''Empty CSV file''
      \<longleftrightarrow> rows = []) \<and>
   (fst (POST client None (Some (name, rows)) db) =
        ErrorResponse 400 ''No valid rows found after parsing''
      \<longleftrightarrow> rows \<noteq> [] \<and> (\<forall>r\<in>set rows. \<not> passes r)) \<and>
   (rows = [] \<or> (\<forall>r\<in>set rows. \<not> passes r) \<longrightarrow>
      snd (POST client None (Some (name, rows)) db) = db \<and>
      POST client' None (Some (name, rows)) db = POST client None (Some (name, rows)) db)"
proof -
  have a: "fst (POST client None (Some (name, rows)) db) = ErrorResponse 400 ''Empty CSV file''
      \<longleftrightarrow> rows = []"
    by (simp add: POST_fresh split: sum.splits prod.splits)
  have b: "fst (POST client None (Some (name, rows)) db) =
        ErrorResponse 400 ''No valid rows found after parsing''
      \<longleftrightarrow> rows \<noteq> [] \<and> (\<forall>r\<in>set rows. \<not> passes r)"
    by (simp add: POST_fresh validRows_empty_iff split: sum.splits prod.splits)
  have c: "snd (POST client None (Some (name, rows)) db) = db \<and>
      POST client' None (Some (name, rows)) db = POST client None (Some (name, rows)) db"
    if "rows = [] \<or> (\<forall>r\<in>set rows. \<not> passes r)"
    using that validRows_empty_iff[of name rows] by (auto simp: POST_fresh)
  from a b c show ?thesis by blast
qed

theorem upload_error_outcomes_witness:
  "\<not> passes invalid_row \<and>
   POST (table_client no_fault) None (Some (''test.csv'', [invalid_row])) [] =
     (ErrorResponse 400 ''No valid rows found after parsing'', []) \<and>
   POST (table_client no_fault) None (Some (''test.csv'', [])) [] =
     (ErrorResponse 400 ''Empty CSV file'', [])"
proof -
  have h: "\<forall>r\<in>set [invalid_row]. \<not> passes r" by (simp add: passes_examples)
  from upload_error_outcomes[of "table_client no_fault" "''test.csv''" "[invalid_row]" "[]"]
    upload_error_outcomes[of "table_client no_fault" "''test.csv''" "[]" "[]"] h
  show ?thesis by (simp add: prod_eq_iff)
qed

text \<open>
  C4. Take any row without the six provider-specific columns and add a date, a service and
  a cost once under the AWS-style names (\<open>usage_start_time\<close>, \<open>service_description\<close>,
  \<open>cost\<close>) and once under the GCP-style names (\<open>usage_date\<close>, \<open>sku_description\<close>,
  \<open>cost_amount\<close>). For non-empty values the two rows have the same six normalised fields;
  they pass or fail the guard together, have the same key for every cloud when they pass,
  and the loop produces the same result with either of them at the same place in the
  file. The cloud is an argument of the key, computed from the file name alone.
\<close>

theorem column_mapping_equivalence:
  assumes "base ''usage_start_time'' = None" "base ''service_description'' = None"
    "base ''cost'' = None" "base ''usage_date'' = None" "base ''sku_description'' = None"
    "base ''cost_amount'' = None"
  shows
   "(d \<noteq> [] \<and> s \<noteq> [] \<and> c \<noteq> [] \<longrightarrow>
      date_of (base(''usage_start_time'' \<mapsto> d, ''service_description'' \<mapsto> s, ''cost'' \<mapsto> c)) =
        date_of (base(''usage_date'' \<mapsto> d, ''sku_description'' \<mapsto> s, ''cost_amount'' \<mapsto> c)) \<and>
      service_of (base(''usage_start_time'' \<mapsto> d, ''service_description'' \<mapsto> s, ''cost'' \<mapsto> c)) =
        service_of (base(''usage_date'' \<mapsto> d, ''sku_description'' \<mapsto> s, ''cost_amount'' \<mapsto> c)) \<and>
      cost_usd_of (base(''usage_start_time'' \<mapsto> d, ''service_description'' \<mapsto> s, ''cost'' \<mapsto> c)) =
        cost_usd_of (base(''usage_date'' \<mapsto> d, ''sku_description'' \<mapsto> s, ''cost_amount'' \<mapsto> c))) \<and>
    account_or_project_of (base(''usage_start_time'' \<mapsto> d, ''service_description'' \<mapsto> s, ''cost'' \<mapsto> c)) =
      account_or_project_of (base(''usage_date'' \<mapsto> d, ''sku_description'' \<mapsto> s, ''cost_amount'' \<mapsto> c)) \<and>
    team_of (base(''usage_start_time'' \<mapsto> d, ''service_description'' \<mapsto> s, ''cost'' \<mapsto> c)) =
      team_of (base(''usage_date'' \<mapsto> d, ''sku_description'' \<mapsto> s, ''cost_amount'' \<mapsto> c)) \<and>
    env_of (base(''usage_start_time'' \<mapsto> d, ''service_description'' \<mapsto> s, ''cost'' \<mapsto> c)) =
      env_of (base(''usage_date'' \<mapsto> d, ''sku_description'' \<mapsto> s, ''cost_amount'' \<mapsto> c)) \<and>
    passes (base(''usage_start_time'' \<mapsto> d, ''service_description'' \<mapsto> s, ''cost'' \<mapsto> c)) =
      passes (base(''usage_date'' \<mapsto> d, ''sku_description'' \<mapsto> s, ''cost_amount'' \<mapsto> c)) \<and>
    (passes (base(''usage_start_time'' \<mapsto> d, ''service_description'' \<mapsto> s, ''cost'' \<mapsto> c)) \<longrightarrow>
       key_of cl (base(''usage_start_time'' \<mapsto> d, ''service_description'' \<mapsto> s, ''cost'' \<mapsto> c)) =
         key_of cl (base(''usage_date'' \<mapsto> d, ''sku_description'' \<mapsto> s, ''cost_amount'' \<mapsto> c))) \<and>
    process_rows cl (xs @ base(''usage_start_time'' \<mapsto> d, ''service_description'' \<mapsto> s, ''cost'' \<mapsto> c) # ys) seen acc =
      process_rows cl (xs @ base(''usage_date'' \<mapsto> d, ''sku_description'' \<mapsto> s, ''cost_amount'' \<mapsto> c) # ys) seen acc"
proof -
  let ?a = "base(''usage_start_time'' \<mapsto> d, ''service_description'' \<mapsto> s, ''cost'' \<mapsto> c)"
  let ?g = "base(''usage_date'' \<mapsto> d, ''sku_description'' \<mapsto> s, ''cost_amount'' \<mapsto> c)"
  have dt: "truthy (date_of ?a) = truthy (date_of ?g)" "truthy (date_of ?a) \<Longrightarrow> date_of ?a = date_of ?g"
       "d \<noteq> [] \<Longrightarrow> date_of ?a = date_of ?g"
    using assms by (auto simp: date_of_def js_or_def truthy_def split: option.splits)
  have sv: "truthy (service_of ?a) = truthy (service_of ?g)"
       "truthy (service_of ?a) \<Longrightarrow> service_of ?a = service_of ?g"
       "s \<noteq> [] \<Longrightarrow> service_of ?a = service_of ?g"
    using assms by (auto simp: service_of_def js_or_def truthy_def split: option.splits)
  have co: "truthy (cost_usd_of ?a) = truthy (cost_usd_of ?g)"
       "truthy (cost_usd_of ?a) \<Longrightarrow> cost_usd_of ?a = cost_usd_of ?g"
       "c \<noteq> [] \<Longrightarrow> cost_usd_of ?a = cost_usd_of ?g"
    using assms by (auto simp: cost_usd_of_def js_or_def truthy_def split: option.splits)
  have ac: "account_or_project_of ?a = account_or_project_of ?g"
    by (simp add: account_or_project_of_def)
  have tm: "team_of ?a = team_of ?g" by (simp add: team_of_def)
  have en: "env_of ?a = env_of ?g" by (simp add: env_of_def)
  have ps: "passes ?a = passes ?g" by (simp add: passes_def dt(1) sv(1) co(1))
  have key: "key_of cl ?a = key_of cl ?g" if "passes ?a"
    using that dt(2) sv(2) co(2) by (simp add: key_of_def passes_def ac tm en)
  have mk: "make_row cl ?a (key_of cl ?a) = make_row cl ?g (key_of cl ?g)" if "passes ?a"
    using that dt(2) sv(2) co(2) key by (simp add: make_row_def passes_def ac tm en)
  have pr: "process_rows cl (xs @ ?a # ys) seen acc = process_rows cl (xs @ ?g # ys) seen acc"
    using ps key mk by (rule process_rows_cong_row)
  from dt(3) sv(3) co(3) ac tm en ps key pr show ?thesis by blast
qed

theorem column_mapping_equivalence_witness:
  "other_columns ''usage_start_time'' = None \<and> other_columns ''service_description'' = None \<and>
   other_columns ''cost'' = None \<and> other_columns ''usage_date'' = None \<and>
   other_columns ''sku_description'' = None \<and> other_columns ''cost_amount'' = None \<and>
   date_of aws_style_row = date_of gcp_style_row \<and>
   service_of aws_style_row = service_of gcp_style_row \<and>
   cost_usd_of aws_style_row = cost_usd_of gcp_style_row \<and>
   team_of aws_style_row = team_of gcp_style_row \<and>
   passes aws_style_row \<and>
   key_of Gcp aws_style_row = key_of Gcp gcp_style_row \<and>
   key_of Gcp gcp_style_row = ''2024-01-01_gcp_undefined_Compute_core_undefined_12.5''"
proof -
  have p: "passes aws_style_row"
    by (simp add: passes_def aws_style_row_def other_columns_def field_defs)
  have k: "key_of Gcp gcp_style_row = ''2024-01-01_gcp_undefined_Compute_core_undefined_12.5''"
    by (simp add: key_of_def gcp_style_row_def other_columns_def field_defs)
  from column_mapping_equivalence[OF other_columns_absent, of "''2024-01-01''" "''Compute''" "''12.5''" Gcp]
    p k other_columns_absent
  show ?thesis
    by (simp add: aws_style_row_def gcp_style_row_def)
qed




text \<open>
  C10. An absent optional field is interpolated into the key as the text \<open>undefined\<close>. So
  two rows that pass the guard with the same date, service and cost, and whose account,
  team and environment are equal or are \<open>undefined\<close> in one row and the text \<open>undefined\<close> in
  the other, have the same key, and the later of the two in a file is dropped by the
  loop.
\<close>

theorem undefined_fingerprint:
  assumes "passes a"
    and "date_of b = date_of a" "service_of b = service_of a" "cost_usd_of b = cost_usd_of a"
    and "account_or_project_of b = account_or_project_of a \<or>
         (account_or_project_of a = None \<and> account_or_project_of b = Some ''undefined'') \<or>
         (account_or_project_of a = Some ''undefined'' \<and> account_or_project_of b = None)"
    and "team_of b = team_of a \<or>
         (team_of a = None \<and> team_of b = Some ''undefined'') \<or>
         (team_of a = Some ''undefined'' \<and> team_of b = None)"
    and "env_of b = env_of a \<or>
         (env_of a = None \<and> env_of b = Some ''undefined'') \<or>
         (env_of a = Some ''undefined'' \<and> env_of b = None)"
  shows "template None = ''undefined'' \<and>
         passes b \<and>
         key_of cl b = key_of cl a \<and>
         process_rows cl (xs @ a # ys @ b # zs) seen acc =
           process_rows cl (xs @ a # ys @ zs) seen acc"
proof -
  have p: "passes b" using assms(1-4) by (simp add: passes_def)
  have k: "key_of cl b = key_of cl a"
    using template_undefined[OF assms(5)] template_undefined[OF assms(6)]
      template_undefined[OF assms(7)] assms(2-4)
    by (simp add: key_of_def)
  have d: "process_rows cl (xs @ a # ys @ b # zs) seen acc = process_rows cl (xs @ a # ys @ zs) seen acc"
    using assms(1) k[symmetric] by (rule process_rows_dup)
  have "template None = ''undefined''" by (simp add: template_def)
  with p k d show ?thesis by blast
qed

theorem undefined_fingerprint_witness:
  "passes ec2_row \<and>
   ec2_row ''account_id'' = None \<and> undefined_account_row ''account_id'' = Some ''undefined'' \<and>
   account_or_project_of ec2_row = None \<and>
   account_or_project_of undefined_account_row = Some ''undefined'' \<and>
   key_of Aws undefined_account_row = key_of Aws ec2_row \<and>
   key_of Aws ec2_row = ''2024-01-01_aws_undefined_EC2_undefined_undefined_100.50'' \<and>
   process_rows Aws [ec2_row, undefined_account_row] {} [] =
     [make_row Aws ec2_row (key_of Aws ec2_row)]"
proof -
  have one: "process_rows Aws [ec2_row] {} [] = [make_row Aws ec2_row (key_of Aws ec2_row)]"
    using passes_examples(1) by (simp add: passes_def)
  have cols: "ec2_row ''account_id'' = None" "undefined_account_row ''account_id'' = Some ''undefined''"
    by (simp_all add: undefined_account_row_def ec2_row_def)
  from undefined_fingerprint[of ec2_row undefined_account_row Aws "[]" "[]" "[]" "{}" "[]"]
    passes_examples(1) undefined_account_fields
  have th: "key_of Aws undefined_account_row = key_of Aws ec2_row"
    "process_rows Aws [ec2_row, undefined_account_row] {} [] = process_rows Aws [ec2_row] {} []"
    by simp_all
  show ?thesis
    unfolding th one keys_examples(1) using passes_examples(1) cols undefined_account_fields(4,5)
    by simp
qed









end
